theory Spec2Isabelle
  imports Main
begin

section \<open>Python values, exceptions and outcomes\<close>

text \<open>
  The model follows \<^verbatim>\<open>olympe/_private/pomp_loop_thread.py\<close>. A Python name with a
  leading underscore is written with the prefix \<open>u_\<close>. Every method takes the state of
  the \<^verbatim>\<open>PompLoopThread\<close> object and returns it updated; an exception is a value.
  Exceptions are split as Python splits them: subclasses of \<^verbatim>\<open>Exception\<close>, and
  the other subclasses of \<^verbatim>\<open>BaseException\<close> (\<^verbatim>\<open>KeyboardInterrupt\<close>,
  \<^verbatim>\<open>SystemExit\<close>), which \<^verbatim>\<open>except Exception\<close> does not catch.
\<close>

datatype pyexc = PyException string | PyBaseException string

fun is_Exception :: "pyexc \<Rightarrow> bool" where
  "is_Exception (PyException n) = True"
| "is_Exception (PyBaseException n) = False"

text \<open>
  \<open>PFuture k\<close> is a reference to the \<^verbatim>\<open>Future\<close> object number \<open>k\<close> of the heap,
  \<open>PId k\<close> is the integer \<^verbatim>\<open>id(future)\<close> of that object.
\<close>

datatype pyval = PNone | PBool bool | PInt int | PId nat | PFuture nat

datatype 'a outcome = Returns 'a | Raises pyexc

datatype thread = LoopThread | ForeignThread

text \<open>
  A callable submitted to the loop: a function of the caller, which returns or raises,
  or the bound method \<^verbatim>\<open>self._has_fd\<close>.
\<close>

datatype callable =
    UserFn "pyval list \<Rightarrow> (string \<times> pyval) list \<Rightarrow> pyval outcome"
  | Bound_has_fd

section \<open>Futures\<close>

text \<open>The states of \<^verbatim>\<open>concurrent.futures.Future\<close>.\<close>

datatype fstate = PENDING | RUNNING | CANCELLED | CANCELLED_AND_NOTIFIED | FINISHED

text \<open>
  The three closures that the source registers as done-callbacks:
  the one of \<^verbatim>\<open>_register\<close>, the one of \<^verbatim>\<open>chain(next_)\<close> and the one of
  \<^verbatim>\<open>then(fn, deferred)\<close>, which holds the future \<^verbatim>\<open>result\<close> it created.
  Each closes over \<^verbatim>\<open>self\<close>, the future it is registered on.
\<close>

datatype callback = CbUnregister | CbChain nat | CbThen nat callable bool

record future =
  fstate :: fstate
  fresult :: pyval
  fexception :: "pyexc option"
  done_callbacks :: "callback list"

definition new_future :: future where
  "new_future = \<lparr>fstate = PENDING, fresult = PNone, fexception = None, done_callbacks = []\<rparr>"

type_synonym task = "nat \<times> callable \<times> pyval list \<times> (string \<times> pyval) list"

section \<open>The loop thread object\<close>

text \<open>
  Effects that leave the object are kept in \<open>trace\<close>, in program order: calls of the
  logger, calls into the native library, \<^verbatim>\<open>join\<close>, calls of submitted callables,
  and the writes to the fd and timer dictionaries (a \<^verbatim>\<open>pop\<close> of an absent key
  writes nothing).
\<close>

datatype event =
    EvLog string string
  | EvSignal
  | EvJoin
  | EvLoopAdd int
  | EvLoopRemove int
  | EvLoopHasFd int
  | EvTimerDestroy nat
  | EvSet string int
  | EvDel string int
  | EvCall nat

text \<open>
  The native reactor is outside the repository. Modelled from the spec: the Reactor
  capability \<^verbatim>\<open>add_fd(handle, fd, mask, callback, userdata) -> status\<close>,
  \<^verbatim>\<open>remove_fd(handle, fd) -> status\<close>, \<^verbatim>\<open>destroy_timer(timer) -> status\<close>.
  Its state is the set \<open>attached\<close> of fds it polls; the status of a call is chosen by
  the environment and given as the argument \<open>res\<close>: with status 0 the call has its
  effect, with any other status the reactor is unchanged.
\<close>

record loop =
  running :: bool
  async_pomp_task :: "task list"
  deferred_pomp_task :: "task list"
  wakeup_evt :: "nat option"
  pomp_timers :: "nat \<rightharpoonup> nat"
  pomp_timer_callbacks :: "nat \<rightharpoonup> nat"
  fd_userdata :: "int \<rightharpoonup> pyval"
  c_fd_userdata :: "int \<rightharpoonup> pyval"
  pomp_fd_callbacks :: "int \<rightharpoonup> nat"
  futures :: "pyval list"
  heap :: "future list"
  attached :: "int set"
  trace :: "event list"

definition emit :: "event \<Rightarrow> loop \<Rightarrow> loop" where
  "emit e s = s\<lparr>trace := trace s @ [e]\<rparr>"

definition emit_if :: "bool \<Rightarrow> event \<Rightarrow> loop \<Rightarrow> loop" where
  "emit_if b e s = (if b then emit e s else s)"

text \<open>The object as \<^verbatim>\<open>__init__\<close> leaves it; \<open>evt\<close> is what \<^verbatim>\<open>od.pomp_evt_new()\<close> returned.\<close>

definition init_loop :: "nat option \<Rightarrow> loop" where
  "init_loop evt =
     \<lparr>running = False, async_pomp_task = [], deferred_pomp_task = [], wakeup_evt = evt,
      pomp_timers = Map.empty, pomp_timer_callbacks = Map.empty,
      fd_userdata = Map.empty, c_fd_userdata = Map.empty, pomp_fd_callbacks = Map.empty,
      futures = [], heap = [], attached = {}, trace = []\<rparr>"


definition od_pomp_loop_remove :: "int \<Rightarrow> int \<Rightarrow> loop \<Rightarrow> int \<times> loop" where
  "od_pomp_loop_remove res fd s =
     (res, emit (EvLoopRemove fd)
             (if res = 0 then s\<lparr>attached := attached s - {fd}\<rparr> else s))"

definition od_pomp_loop_has_fd :: "int \<Rightarrow> loop \<Rightarrow> int \<times> loop" where
  "od_pomp_loop_has_fd fd s =
     ((if fd \<in> attached s then 1 else 0), emit (EvLoopHasFd fd) s)"

definition od_pomp_timer_destroy :: "int \<Rightarrow> nat \<Rightarrow> loop \<Rightarrow> int \<times> loop" where
  "od_pomp_timer_destroy res t s = (res, emit (EvTimerDestroy t) s)"

subsection \<open>stop and the wake-up\<close>

definition u_wake_up :: "loop \<Rightarrow> loop" where
  "u_wake_up s = (if wakeup_evt s \<noteq> None then emit EvSignal s else s)"

text \<open>
  \<^verbatim>\<open>join\<close> waits for the loop thread to end; what that thread does meanwhile is not
  part of \<^verbatim>\<open>stop\<close>, so the wait is the event \<open>EvJoin\<close>.
\<close>

definition stop :: "thread \<Rightarrow> loop \<Rightarrow> bool \<times> loop" where
  "stop cur s =
     (if \<not> running s then (False, s)
      else
        (let s1 = s\<lparr>running := False\<rparr> in
         if cur \<noteq> LoopThread then (True, emit EvJoin (u_wake_up s1))
         else (True, s1)))"

subsection \<open>The fd registry\<close>


definition u_remove_fd_from_loop :: "int \<Rightarrow> int \<Rightarrow> loop \<Rightarrow> bool \<times> loop" where
  "u_remove_fd_from_loop res fd s =
     (let s1 = emit_if (fd_userdata s fd \<noteq> None) (EvDel ''fd_userdata'' fd)
                 (s\<lparr>fd_userdata := (fd_userdata s)(fd := None)\<rparr>);
          s2 = emit_if (c_fd_userdata s1 fd \<noteq> None) (EvDel ''c_fd_userdata'' fd)
                 (s1\<lparr>c_fd_userdata := (c_fd_userdata s1)(fd := None)\<rparr>);
          popped = pomp_fd_callbacks s2 fd;
          s3 = emit_if (popped \<noteq> None) (EvDel ''pomp_fd_callbacks'' fd)
                 (s2\<lparr>pomp_fd_callbacks := (pomp_fd_callbacks s2)(fd := None)\<rparr>)
      in if popped \<noteq> None then
           (let (r, s4) = od_pomp_loop_remove res fd s3
            in if r \<noteq> 0 then
                 (False, emit (EvLog ''error'' ''Cannot remove fd from pomp loop'') s4)
               else (True, s4))
         else (True, s3))"

subsection \<open>Timers\<close>

definition destroy_timer :: "int \<Rightarrow> nat \<Rightarrow> loop \<Rightarrow> bool outcome \<times> loop" where
  "destroy_timer res t s =
     (if pomp_timers s t = None then (Returns False, s)
      else
        (let (r, s1) = od_pomp_timer_destroy res t s
         in if r \<noteq> 0 then
              (Returns False,
               emit (EvLog ''error'' ''Error while destroying pomp loop timer'') s1)
            else
              (let s2 = emit (EvDel ''pomp_timers'' (int t))
                          (s1\<lparr>pomp_timers := (pomp_timers s1)(t := None)\<rparr>)
               in if pomp_timer_callbacks s2 t = None then (Raises (PyException ''KeyError''), s2)
                  else
                    (Returns True,
                     emit (EvLog ''info'' ''Pomp loop timer has been destroyed'')
                       (emit (EvDel ''pomp_timer_callbacks'' (int t))
                          (s2\<lparr>pomp_timer_callbacks := (pomp_timer_callbacks s2)(t := None)\<rparr>))))))"



section \<open>Timers: destroy\_timer\<close>

text \<open>
  C10. \<^verbatim>\<open>destroy_timer\<close> on a timer that is not in the registry returns False and
  leaves the object as it was, so the reactor is not called. On a registered timer whose
  native destroy fails it returns False and both dictionaries are as before. Whenever
  one of the two dictionaries has changed, the native destroy returned 0. The fd removal
  drops its entries whatever the status.
\<close>

theorem destroy_timer_keeps_entries_on_failure:
  "(pomp_timers s t = None \<longrightarrow> destroy_timer res t s = (Returns False, s)) \<and>
   (pomp_timers s t \<noteq> None \<and> res \<noteq> 0 \<longrightarrow>
      fst (destroy_timer res t s) = Returns False \<and>
      pomp_timers (snd (destroy_timer res t s)) = pomp_timers s \<and>
      pomp_timer_callbacks (snd (destroy_timer res t s)) = pomp_timer_callbacks s \<and>
      EvTimerDestroy t \<in> set (trace (snd (destroy_timer res t s)))) \<and>
   (pomp_timers (snd (destroy_timer res t s)) \<noteq> pomp_timers s \<or>
    pomp_timer_callbacks (snd (destroy_timer res t s)) \<noteq> pomp_timer_callbacks s
      \<longrightarrow> res = 0 \<and> pomp_timers s t \<noteq> None) \<and>
   pomp_fd_callbacks (snd (u_remove_fd_from_loop res' fd s)) fd = None"
  by (auto simp: destroy_timer_def od_pomp_timer_destroy_def emit_def emit_if_def
      u_remove_fd_from_loop_def od_pomp_loop_remove_def Let_def split: if_splits)

theorem destroy_timer_keeps_entries_on_failure_witness:
  "destroy_timer 0 2 (init_loop (Some 1)) = (Returns False, init_loop (Some 1)) \<and>
   fst (destroy_timer (-22) 1 ((init_loop (Some 1))
          \<lparr>pomp_timers := [1 \<mapsto> 1], pomp_timer_callbacks := [1 \<mapsto> 1]\<rparr>)) = Returns False \<and>
   pomp_timers (snd (destroy_timer (-22) 1 ((init_loop (Some 1))
          \<lparr>pomp_timers := [1 \<mapsto> 1], pomp_timer_callbacks := [1 \<mapsto> 1]\<rparr>))) 1 = Some 1 \<and>
   pomp_timers (snd (destroy_timer 0 1 ((init_loop (Some 1))
          \<lparr>pomp_timers := [1 \<mapsto> 1], pomp_timer_callbacks := [1 \<mapsto> 1]\<rparr>))) 1 = None"
  using destroy_timer_keeps_entries_on_failure [of "init_loop (Some 1)" 2 0 0 0]
    destroy_timer_keeps_entries_on_failure [of "(init_loop (Some 1))
          \<lparr>pomp_timers := [1 \<mapsto> 1], pomp_timer_callbacks := [1 \<mapsto> 1]\<rparr>" 1 "-22" 0 0]
  by (simp add: init_loop_def destroy_timer_def od_pomp_timer_destroy_def emit_def Let_def)


section \<open>The fd registry: removal and the invariant\<close>

lemma remove_fd_absent:
  "fd_userdata s fd = None \<Longrightarrow> c_fd_userdata s fd = None \<Longrightarrow> pomp_fd_callbacks s fd = None
   \<Longrightarrow> u_remove_fd_from_loop res fd s = (True, s)"
  by (simp add: u_remove_fd_from_loop_def emit_if_def Let_def fun_upd_idem)

lemma remove_fd_drops:
  "fd_userdata (snd (u_remove_fd_from_loop res fd s)) fd = None \<and>
   c_fd_userdata (snd (u_remove_fd_from_loop res fd s)) fd = None \<and>
   pomp_fd_callbacks (snd (u_remove_fd_from_loop res fd s)) fd = None"
  by (simp add: u_remove_fd_from_loop_def od_pomp_loop_remove_def emit_def emit_if_def Let_def)

lemma remove_fd_present:
  "pomp_fd_callbacks s fd \<noteq> None \<Longrightarrow>
   fst (u_remove_fd_from_loop res fd s) = (res = 0) \<and>
   count_list (trace (snd (u_remove_fd_from_loop res fd s))) (EvLoopRemove fd) =
     count_list (trace s) (EvLoopRemove fd) + 1"
  by (simp add: u_remove_fd_from_loop_def od_pomp_loop_remove_def emit_def emit_if_def Let_def)

text \<open>
  C7. After a removal of \<open>fd\<close> (with any native status \<open>res1\<close>) the three dictionaries
  have no entry for \<open>fd\<close>, and a second removal returns True and leaves the whole object,
  trace included, as it is: the reactor is not called again. When \<open>fd\<close> was in the
  callback table, the first removal calls the reactor once and returns whether its
  status was 0.
\<close>

theorem remove_fd_idempotent:
  "u_remove_fd_from_loop res2 fd (snd (u_remove_fd_from_loop res1 fd s)) =
     (True, snd (u_remove_fd_from_loop res1 fd s)) \<and>
   fd_userdata (snd (u_remove_fd_from_loop res1 fd s)) fd = None \<and>
   c_fd_userdata (snd (u_remove_fd_from_loop res1 fd s)) fd = None \<and>
   pomp_fd_callbacks (snd (u_remove_fd_from_loop res1 fd s)) fd = None \<and>
   (pomp_fd_callbacks s fd \<noteq> None \<longrightarrow>
      fst (u_remove_fd_from_loop res1 fd s) = (res1 = 0) \<and>
      count_list (trace (snd (u_remove_fd_from_loop res1 fd s))) (EvLoopRemove fd) =
        count_list (trace s) (EvLoopRemove fd) + 1)"
  using remove_fd_drops [of res1 fd s] remove_fd_present [of s fd res1]
  by (simp add: remove_fd_absent)

text \<open>A state with fd 7 registered and attached, used by the concrete checks below.\<close>

definition loop_with_fd7 :: loop where
  "loop_with_fd7 =
     (init_loop (Some 1))\<lparr>fd_userdata := [7 \<mapsto> PNone], c_fd_userdata := [7 \<mapsto> PNone],
        pomp_fd_callbacks := [7 \<mapsto> 1], attached := {7}\<rparr>"

theorem remove_fd_idempotent_witness:
  "pomp_fd_callbacks loop_with_fd7 7 \<noteq> None \<and>
   fst (u_remove_fd_from_loop (-2) 7 loop_with_fd7) = False \<and>
   pomp_fd_callbacks (snd (u_remove_fd_from_loop (-2) 7 loop_with_fd7)) 7 = None \<and>
   fst (u_remove_fd_from_loop 0 7 (snd (u_remove_fd_from_loop (-2) 7 loop_with_fd7))) = True"
  using remove_fd_idempotent [of 0 7 "-2" loop_with_fd7]
  by (simp add: loop_with_fd7_def init_loop_def)








section \<open>stop\<close>

text \<open>
  C6, as stated, fails when the wake event is null: \<^verbatim>\<open>_wake_up\<close> signals only
  \<^verbatim>\<open>if self.wakeup_evt\<close>, so a foreign caller of \<^verbatim>\<open>stop\<close> then joins without a signal.
\<close>

theorem stop_without_wake_event_counterexample:
  "stop ForeignThread ((init_loop None)\<lparr>running := True\<rparr>) =
     (True, (init_loop None)\<lparr>running := False, trace := [EvJoin]\<rparr>) \<and>
   EvSignal \<notin> set (trace (snd (stop ForeignThread ((init_loop None)\<lparr>running := True\<rparr>))))"
  by (simp add: stop_def u_wake_up_def emit_def init_loop_def Let_def)

text \<open>
  C6, amended. \<^verbatim>\<open>stop\<close> returns False and changes nothing when the loop is not
  running. Otherwise it sets \<open>running\<close> to False and returns True; a caller other than
  the loop thread also signals the wake event, if there is one, and then joins; the loop
  thread itself only flips the flag.
\<close>

theorem stop_behaviour:
  "(\<not> running s \<longrightarrow> stop cur s = (False, s)) \<and>
   (running s \<longrightarrow> fst (stop cur s) = True \<and> running (snd (stop cur s)) = False) \<and>
   (running s \<and> cur \<noteq> LoopThread \<longrightarrow>
      snd (stop cur s) =
        s\<lparr>running := False,
           trace := trace s @ (if wakeup_evt s \<noteq> None then [EvSignal] else []) @ [EvJoin]\<rparr>) \<and>
   (running s \<and> cur = LoopThread \<longrightarrow> snd (stop cur s) = s\<lparr>running := False\<rparr>)"
  by (simp add: stop_def u_wake_up_def emit_def Let_def)

theorem stop_behaviour_witness:
  "\<not> running (init_loop (Some 1)) \<and>
   stop ForeignThread (init_loop (Some 1)) = (False, init_loop (Some 1)) \<and>
   running ((init_loop (Some 1))\<lparr>running := True\<rparr>) \<and>
   trace (snd (stop ForeignThread ((init_loop (Some 1))\<lparr>running := True\<rparr>))) = [EvSignal, EvJoin] \<and>
   trace (snd (stop LoopThread ((init_loop (Some 1))\<lparr>running := True\<rparr>))) = []"
  using stop_behaviour [of "init_loop (Some 1)" ForeignThread]
    stop_behaviour [of "(init_loop (Some 1))\<lparr>running := True\<rparr>" ForeignThread]
    stop_behaviour [of "(init_loop (Some 1))\<lparr>running := True\<rparr>" LoopThread]
  by (simp add: init_loop_def)


section \<open>Operations of concurrent.futures.Future\<close>

text \<open>
  The heap holds the \<^verbatim>\<open>Future\<close> objects; a reference is an index. Python references
  are always live, so an index beyond the heap does not occur in a state the program
  reaches; there \<open>get_fut\<close> reads a new future and \<open>upd_fut\<close> writes nothing.

  The methods of the base class follow the standard library (CPython 3.8 and later):
  \<^verbatim>\<open>cancel\<close> refuses a running or finished future, \<^verbatim>\<open>set_result\<close> and
  \<^verbatim>\<open>set_exception\<close> raise \<^verbatim>\<open>InvalidStateError\<close> on a future that is already done,
  \<^verbatim>\<open>set_running_or_notify_cancel\<close> raises \<^verbatim>\<open>RuntimeError\<close> on a running or finished
  one. A method that ends with \<^verbatim>\<open>self._invoke_callbacks()\<close> returns here the flag
  \<open>fired\<close>; the callbacks themselves are run by \<open>run_callbacks\<close> below.
\<close>

definition get_fut :: "loop \<Rightarrow> nat \<Rightarrow> future" where
  "get_fut s k = (if k < length (heap s) then heap s ! k else new_future)"

definition upd_fut :: "nat \<Rightarrow> (future \<Rightarrow> future) \<Rightarrow> loop \<Rightarrow> loop" where
  "upd_fut k g s = s\<lparr>heap := (heap s)[k := g (get_fut s k)]\<rparr>"

definition fut_cancelled :: "future \<Rightarrow> bool" where
  "fut_cancelled f = (fstate f = CANCELLED \<or> fstate f = CANCELLED_AND_NOTIFIED)"

definition fut_done :: "future \<Rightarrow> bool" where
  "fut_done f =
     (fstate f = CANCELLED \<or> fstate f = CANCELLED_AND_NOTIFIED \<or> fstate f = FINISHED)"

definition cancel_prim :: "nat \<Rightarrow> loop \<Rightarrow> bool \<times> bool \<times> loop" where
  "cancel_prim k s =
     (case fstate (get_fut s k) of
        RUNNING \<Rightarrow> (False, False, s)
      | FINISHED \<Rightarrow> (False, False, s)
      | CANCELLED \<Rightarrow> (True, False, s)
      | CANCELLED_AND_NOTIFIED \<Rightarrow> (True, False, s)
      | PENDING \<Rightarrow> (True, True, upd_fut k (\<lambda>f. f\<lparr>fstate := CANCELLED\<rparr>) s))"

definition set_result_prim :: "nat \<Rightarrow> pyval \<Rightarrow> loop \<Rightarrow> unit outcome \<times> bool \<times> loop" where
  "set_result_prim k v s =
     (if fut_done (get_fut s k) then (Raises (PyException ''InvalidStateError''), False, s)
      else (Returns (), True, upd_fut k (\<lambda>f. f\<lparr>fresult := v, fstate := FINISHED\<rparr>) s))"

definition set_exception_prim :: "nat \<Rightarrow> pyexc \<Rightarrow> loop \<Rightarrow> unit outcome \<times> bool \<times> loop" where
  "set_exception_prim k e s =
     (if fut_done (get_fut s k) then (Raises (PyException ''InvalidStateError''), False, s)
      else (Returns (), True, upd_fut k (\<lambda>f. f\<lparr>fexception := Some e, fstate := FINISHED\<rparr>) s))"

definition set_running_or_notify_cancel :: "nat \<Rightarrow> loop \<Rightarrow> bool outcome \<times> loop" where
  "set_running_or_notify_cancel k s =
     (case fstate (get_fut s k) of
        CANCELLED \<Rightarrow> (Returns False, upd_fut k (\<lambda>f. f\<lparr>fstate := CANCELLED_AND_NOTIFIED\<rparr>) s)
      | PENDING \<Rightarrow> (Returns True, upd_fut k (\<lambda>f. f\<lparr>fstate := RUNNING\<rparr>) s)
      | _ \<Rightarrow> (Raises (PyException ''RuntimeError''),
               emit (EvLog ''critical'' ''Future in unexpected state'') s))"

text \<open>
  \<^verbatim>\<open>exception()\<close> and \<^verbatim>\<open>result()\<close> without a timeout wait until the future is done:
  on a future that is not done the call does not return in this sequential model
  (\<open>None\<close>). With a timeout the wait ends with \<^verbatim>\<open>TimeoutError\<close>.
\<close>

definition fut_exception :: "nat \<Rightarrow> loop \<Rightarrow> pyexc option outcome option" where
  "fut_exception k s =
     (if fut_cancelled (get_fut s k) then Some (Raises (PyException ''CancelledError''))
      else if fstate (get_fut s k) = FINISHED then Some (Returns (fexception (get_fut s k)))
      else None)"

definition fut_result :: "nat \<Rightarrow> loop \<Rightarrow> pyval outcome option" where
  "fut_result k s =
     (if fut_cancelled (get_fut s k) then Some (Raises (PyException ''CancelledError''))
      else if fstate (get_fut s k) = FINISHED then
        (case fexception (get_fut s k) of
           Some e \<Rightarrow> Some (Raises e)
         | None \<Rightarrow> Some (Returns (fresult (get_fut s k))))
      else None)"

definition fut_result_timeout :: "nat \<Rightarrow> loop \<Rightarrow> pyval outcome" where
  "fut_result_timeout k s =
     (case fut_result k s of
        Some r \<Rightarrow> r
      | None \<Rightarrow> Raises (PyException ''TimeoutError''))"

text \<open>
  \<^verbatim>\<open>add_done_callback\<close> appends the callback to a future that is not done; on a done
  future it calls it at once, which is the returned list of calls to make.
\<close>

definition add_done_callback ::
  "nat \<Rightarrow> callback \<Rightarrow> loop \<Rightarrow> (nat \<times> callback) list \<times> loop" where
  "add_done_callback k cb s =
     (if \<not> fut_done (get_fut s k) then
        ([], upd_fut k (\<lambda>f. f\<lparr>done_callbacks := done_callbacks f @ [cb]\<rparr>) s)
      else ([(k, cb)], s))"

definition callbacks_of :: "nat \<Rightarrow> loop \<Rightarrow> (nat \<times> callback) list" where
  "callbacks_of k s = map (Pair k) (done_callbacks (get_fut s k))"

definition fired_callbacks :: "bool \<Rightarrow> nat \<Rightarrow> loop \<Rightarrow> (nat \<times> callback) list" where
  "fired_callbacks fired k s = (if fired then callbacks_of k s else [])"

section \<open>The chainable Future and task submission\<close>

definition Future_init :: "loop \<Rightarrow> nat \<times> loop" where
  "Future_init s = (length (heap s), s\<lparr>heap := heap s @ [new_future]\<rparr>)"

definition u_register_future :: "pyval \<Rightarrow> loop \<Rightarrow> loop" where
  "u_register_future f s = s\<lparr>futures := futures s @ [f]\<rparr>"

definition u_unregister_future :: "pyval \<Rightarrow> bool \<Rightarrow> loop \<Rightarrow> unit outcome \<times> loop" where
  "u_unregister_future f ignore_error s =
     (if f \<in> set (futures s) then (Returns (), s\<lparr>futures := remove1 f (futures s)\<rparr>)
      else if ignore_error then (Returns (), s)
      else (Raises (PyException ''ValueError''), s))"

definition u_register :: "nat \<Rightarrow> loop \<Rightarrow> (nat \<times> callback) list \<times> loop" where
  "u_register k s = add_done_callback k CbUnregister (u_register_future (PId k) s)"

definition chain_prim :: "nat \<Rightarrow> nat \<Rightarrow> loop \<Rightarrow> (nat \<times> callback) list \<times> loop" where
  "chain_prim self next s = add_done_callback self (CbChain next) s"

text \<open>
  \<^verbatim>\<open>set_from\<close>, lines 83 to 96. \<open>set_from_tail\<close> is the part from
  \<^verbatim>\<open>set_running_or_notify_cancel\<close> on. The result is the outcome, the futures whose
  callbacks are to be invoked, and the state; \<open>None\<close> when the call waits for ever.
\<close>

definition set_from_tail :: "nat \<Rightarrow> nat \<Rightarrow> loop \<Rightarrow> (unit outcome \<times> bool \<times> loop) option" where
  "set_from_tail self source s =
     (case set_running_or_notify_cancel self s of
        (Raises e, s1) \<Rightarrow> Some (Raises e, False, s1)
      | (Returns False, s1) \<Rightarrow> Some (Returns (), False, s1)
      | (Returns True, s1) \<Rightarrow>
          (case fut_exception source s1 of
             None \<Rightarrow> None
           | Some (Raises e) \<Rightarrow> Some (Raises e, False, s1)
           | Some (Returns (Some e)) \<Rightarrow> Some (set_exception_prim self e s1)
           | Some (Returns None) \<Rightarrow>
               (case fut_result source s1 of
                  None \<Rightarrow> None
                | Some (Raises e) \<Rightarrow> Some (Raises e, False, s1)
                | Some (Returns v) \<Rightarrow> Some (set_result_prim self v s1))))"

definition set_from_prim :: "nat \<Rightarrow> nat \<Rightarrow> loop \<Rightarrow> (unit outcome \<times> bool \<times> loop) option" where
  "set_from_prim self source s =
     (if fut_cancelled (get_fut s source) then
        (let (r, fired, s1) = cancel_prim self s in Some (Returns (), fired, s1))
      else if fut_done (get_fut s self) then Some (Returns (), False, s)
      else set_from_tail self source s)"

text \<open>
  \<^verbatim>\<open>run_later\<close>, and the branch of \<^verbatim>\<open>run_async\<close> for a caller that is not the loop
  thread. The future is new, so \<^verbatim>\<open>_register\<close> has no callback to call at once
  (lemma \<open>register_new_future\<close>).
\<close>

type_synonym kwds = "(string \<times> pyval) list"

definition run_later :: "callable \<Rightarrow> pyval list \<Rightarrow> kwds \<Rightarrow> loop \<Rightarrow> nat \<times> loop" where
  "run_later func args kwds s =
     (let (future, s1) = Future_init s;
          (calls, s2) = u_register future s1;
          s3 = s2\<lparr>deferred_pomp_task := deferred_pomp_task s2 @ [(future, func, args, kwds)]\<rparr>
      in (future, s3))"

definition run_async_foreign :: "callable \<Rightarrow> pyval list \<Rightarrow> kwds \<Rightarrow> loop \<Rightarrow> nat \<times> loop" where
  "run_async_foreign func args kwds s =
     (let (future, s1) = Future_init s;
          (calls, s2) = u_register future s1;
          s3 = s2\<lparr>async_pomp_task := async_pomp_task s2 @ [(future, func, args, kwds)]\<rparr>
      in (future, u_wake_up s3))"

definition u_has_fd :: "int \<Rightarrow> loop \<Rightarrow> pyval outcome \<times> loop" where
  "u_has_fd fd s = (let (r, s1) = od_pomp_loop_has_fd fd s in (Returns (PBool (r = 1)), s1))"

text \<open>Calling a submitted callable; \<open>k\<close> is the future that waits for its outcome.\<close>

definition call :: "nat \<Rightarrow> callable \<Rightarrow> pyval list \<Rightarrow> kwds \<Rightarrow> loop \<Rightarrow> pyval outcome \<times> loop" where
  "call k f args kwds s =
     (case f of
        UserFn g \<Rightarrow> (g args kwds, emit (EvCall k) s)
      | Bound_has_fd \<Rightarrow>
          (case args of
             [PInt fd] \<Rightarrow> u_has_fd fd (emit (EvCall k) s)
           | _ \<Rightarrow> (Raises (PyException ''TypeError''), emit (EvCall k) s)))"

subsection \<open>The done-callbacks\<close>

text \<open>
  The body of the \<^verbatim>\<open>try\<close> in the callback of \<^verbatim>\<open>then\<close> (lines 107 to 114), run by the
  thread \<open>cur\<close> on the done future \<open>self\<close>. It gives the outcome of the body and the
  callbacks to call next.
\<close>

definition then_body ::
  "thread \<Rightarrow> nat \<Rightarrow> nat \<Rightarrow> callable \<Rightarrow> bool \<Rightarrow> loop
     \<Rightarrow> (unit outcome \<times> (nat \<times> callback) list \<times> loop) option" where
  "then_body cur self result fn deferred s =
     (case fut_result self s of
        None \<Rightarrow> None
      | Some (Raises e) \<Rightarrow> Some (Raises e, [], s)
      | Some (Returns v) \<Rightarrow>
          (if deferred then
             (let (temp, s1) = run_later fn [v] [] s;
                  (calls, s2) = chain_prim temp result s1
              in Some (Returns (), calls, s2))
           else if cur \<noteq> LoopThread then
             (let (temp, s1) = run_async_foreign fn [v] [] s;
                  (calls, s2) = chain_prim temp result s1
              in Some (Returns (), calls, s2))
           else
             (case call result fn [v] [] s of
                (Raises e, s1) \<Rightarrow> Some (Raises e, [], s1)
              | (Returns x, s1) \<Rightarrow>
                  (let (r, fired, s2) = set_result_prim result x s1
                   in Some (r, fired_callbacks fired result s2, s2)))))"

text \<open>
  The handler \<^verbatim>\<open>except Exception as e\<close> of that callback (lines 115 to 119). Its first
  statement reads \<^verbatim>\<open>self.logging\<close>, and \<^verbatim>\<open>self\<close> is the \<^verbatim>\<open>Future\<close>: the class
  sets \<^verbatim>\<open>_loop\<close> only and \<^verbatim>\<open>concurrent.futures.Future\<close> has no attribute
  \<^verbatim>\<open>logging\<close>, so the lookup raises \<^verbatim>\<open>AttributeError\<close> and
  \<^verbatim>\<open>result.set_exception(e)\<close> is not reached.
\<close>

definition then_handler :: "pyexc \<Rightarrow> nat \<Rightarrow> loop \<Rightarrow> unit outcome \<times> bool \<times> loop" where
  "then_handler e result s = (Raises (PyException ''AttributeError''), False, s)"

text \<open>
  One done-callback, called by \<^verbatim>\<open>_invoke_callbacks\<close> (or by \<^verbatim>\<open>add_done_callback\<close> on
  a done future) in the thread \<open>cur\<close>; an \<^verbatim>\<open>Exception\<close> it raises is logged there and
  dropped. The result is the list of callbacks its last statement fires, and the state.
\<close>

definition log_callback_exception :: "loop \<Rightarrow> loop" where
  "log_callback_exception s = emit (EvLog ''exception'' ''exception calling callback for'') s"

fun cb_step :: "thread \<Rightarrow> nat \<Rightarrow> callback \<Rightarrow> loop \<Rightarrow> ((nat \<times> callback) list \<times> loop) option" where
  "cb_step cur self CbUnregister s = Some ([], snd (u_unregister_future (PId self) True s))"
| "cb_step cur self (CbChain next) s =
     (case set_from_prim next self s of
        None \<Rightarrow> None
      | Some (Raises e, fired, s1) \<Rightarrow> Some (fired_callbacks fired next s1, log_callback_exception s1)
      | Some (Returns u, fired, s1) \<Rightarrow> Some (fired_callbacks fired next s1, s1))"
| "cb_step cur self (CbThen result fn deferred) s =
     (case then_body cur self result fn deferred s of
        None \<Rightarrow> None
      | Some (Returns u, calls, s1) \<Rightarrow> Some (calls, s1)
      | Some (Raises e, calls, s1) \<Rightarrow>
          (if is_Exception e then
             (case then_handler e result s1 of
                (Raises e', fired, s2) \<Rightarrow>
                  Some (calls @ fired_callbacks fired result s2, log_callback_exception s2)
              | (Returns u, fired, s2) \<Rightarrow> Some (calls @ fired_callbacks fired result s2, s2))
           else
             (let (r, fired, s2) = cancel_prim result s1
              in Some (calls @ fired_callbacks fired result s2, s2))))"


section \<open>Running the done-callbacks\<close>

text \<open>
  \<^verbatim>\<open>_invoke_callbacks\<close> calls the callbacks of a future in order, and a callback that
  resolves another future runs the callbacks of that one before it returns. The list of
  pending calls below is that call stack. It ends: every call either consumes a callback
  or moves the callbacks of a future that becomes done into the list, and the callback
  of \<^verbatim>\<open>then\<close> adds at most one new future with two callbacks.
\<close>

fun cb_weight :: "callback \<Rightarrow> nat" where
  "cb_weight CbUnregister = 1"
| "cb_weight (CbChain n) = 1"
| "cb_weight (CbThen r f d) = 5"

definition calls_weight :: "(nat \<times> callback) list \<Rightarrow> nat" where
  "calls_weight wl = sum_list (map (\<lambda>c. cb_weight (snd c)) wl)"

definition fut_weight :: "future \<Rightarrow> nat" where
  "fut_weight f = (if fut_done f then 0 else sum_list (map cb_weight (done_callbacks f)))"

definition heap_weight :: "loop \<Rightarrow> nat" where
  "heap_weight s = sum_list (map fut_weight (heap s))"

lemma calls_weight_simps [simp]:
  "calls_weight [] = 0"
  "calls_weight (c # wl) = cb_weight (snd c) + calls_weight wl"
  "calls_weight (xs @ ys) = calls_weight xs + calls_weight ys"
  by (simp_all add: calls_weight_def)

lemma heap_weight_emit [simp]: "heap_weight (emit e s) = heap_weight s"
  by (simp add: heap_weight_def emit_def)

lemma get_fut_emit [simp]: "get_fut (emit e s) k = get_fut s k"
  by (simp add: get_fut_def emit_def)

lemma sum_list_map_update:
  "k < length xs \<Longrightarrow>
   sum_list (map g (xs[k := y])) + g (xs ! k) = sum_list (map g xs) + (g y :: nat)"
proof (induction xs arbitrary: k)
  case Nil
  then show ?case by simp
next
  case (Cons x xs)
  then show ?case by (cases k) auto
qed

lemma get_fut_beyond: "\<not> k < length (heap s) \<Longrightarrow> get_fut s k = new_future"
  by (simp add: get_fut_def)

lemma upd_fut_beyond: "\<not> k < length (heap s) \<Longrightarrow> upd_fut k g s = s"
  by (simp add: upd_fut_def list_update_beyond)

lemma fut_weight_new [simp]: "fut_weight new_future = 0"
  by (simp add: fut_weight_def new_future_def)

lemma heap_weight_upd:
  "k < length (heap s) \<Longrightarrow>
   heap_weight (upd_fut k g s) + fut_weight (get_fut s k) =
     heap_weight s + fut_weight (g (get_fut s k))"
  using sum_list_map_update [of k "heap s" fut_weight "g (heap s ! k)"]
  by (simp add: heap_weight_def upd_fut_def get_fut_def)

lemma calls_weight_callbacks_of:
  "calls_weight (callbacks_of k s) = sum_list (map cb_weight (done_callbacks (get_fut s k)))"
  by (simp add: calls_weight_def callbacks_of_def comp_def)

lemma get_fut_upd_same:
  "k < length (heap s) \<Longrightarrow> get_fut (upd_fut k g s) k = g (get_fut s k)"
  by (simp add: get_fut_def upd_fut_def)

lemma get_fut_upd_other:
  "j \<noteq> k \<Longrightarrow> get_fut (upd_fut k g s) j = get_fut s j"
  by (simp add: get_fut_def upd_fut_def)

lemma length_heap_upd_fut [simp]: "length (heap (upd_fut k g s)) = length (heap s)"
  by (simp add: upd_fut_def)

text \<open>
  Resolving a future that is not done moves the weight of its callbacks from the heap
  to the calls that are fired.
\<close>

lemma resolve_weight:
  assumes "\<not> fut_done (get_fut s k)" and "\<And>f. fut_done (g f)"
    and "\<And>f. done_callbacks (g f) = done_callbacks f"
  shows "calls_weight (callbacks_of k (upd_fut k g s)) + heap_weight (upd_fut k g s) = heap_weight s"
proof (cases "k < length (heap s)")
  case True
  then show ?thesis
    using heap_weight_upd [OF True, of g] assms
    by (simp add: calls_weight_callbacks_of get_fut_upd_same fut_weight_def)
next
  case False
  then show ?thesis
    by (simp add: upd_fut_beyond calls_weight_callbacks_of get_fut_beyond new_future_def)
qed

lemma cancel_prim_weight:
  "cancel_prim k s = (r, fired, s') \<Longrightarrow>
   calls_weight (fired_callbacks fired k s') + heap_weight s' = heap_weight s"
  using resolve_weight [of s k "\<lambda>f. f\<lparr>fstate := CANCELLED\<rparr>"]
  by (auto simp: cancel_prim_def fired_callbacks_def fut_done_def split: fstate.splits)

lemma set_result_prim_weight:
  "set_result_prim k v s = (r, fired, s') \<Longrightarrow>
   calls_weight (fired_callbacks fired k s') + heap_weight s' = heap_weight s"
  using resolve_weight [of s k "\<lambda>f. f\<lparr>fresult := v, fstate := FINISHED\<rparr>"]
  by (auto simp: set_result_prim_def fired_callbacks_def fut_done_def split: if_splits)

lemma set_exception_prim_weight:
  "set_exception_prim k e s = (r, fired, s') \<Longrightarrow>
   calls_weight (fired_callbacks fired k s') + heap_weight s' = heap_weight s"
  using resolve_weight [of s k "\<lambda>f. f\<lparr>fexception := Some e, fstate := FINISHED\<rparr>"]
  by (auto simp: set_exception_prim_def fired_callbacks_def fut_done_def split: if_splits)

text \<open>A change of state between PENDING and RUNNING keeps the weight.\<close>

lemma keep_weight:
  assumes "fut_weight (g (get_fut s k)) = fut_weight (get_fut s k)"
  shows "heap_weight (upd_fut k g s) = heap_weight s"
proof (cases "k < length (heap s)")
  case True
  then show ?thesis using heap_weight_upd [OF True, of g] assms by simp
next
  case False
  then show ?thesis by (simp add: upd_fut_beyond)
qed

lemma set_running_weight:
  "set_running_or_notify_cancel k s = (r, s') \<Longrightarrow> heap_weight s' = heap_weight s"
  by (auto simp: set_running_or_notify_cancel_def fut_weight_def fut_done_def
      intro!: keep_weight split: fstate.splits)

lemma set_from_tail_weight:
  "set_from_tail self source s = Some (r, fired, s') \<Longrightarrow>
   calls_weight (fired_callbacks fired self s') + heap_weight s' = heap_weight s"
  by (auto simp: set_from_tail_def fired_callbacks_def
      dest!: set_running_weight
      dest: set_result_prim_weight [unfolded fired_callbacks_def]
            set_exception_prim_weight [unfolded fired_callbacks_def]
      split: prod.splits outcome.splits bool.splits option.splits if_splits)

lemma set_from_prim_weight:
  "set_from_prim self source s = Some (r, fired, s') \<Longrightarrow>
   calls_weight (fired_callbacks fired self s') + heap_weight s' = heap_weight s"
  by (auto simp: set_from_prim_def fired_callbacks_def
      dest: set_from_tail_weight [unfolded fired_callbacks_def]
            cancel_prim_weight [unfolded fired_callbacks_def]
      split: prod.splits if_splits)


lemma heap_weight_futures [simp]: "heap_weight (s\<lparr>futures := x\<rparr>) = heap_weight s"
  by (simp add: heap_weight_def)

lemma heap_weight_wake_up [simp]: "heap_weight (u_wake_up s) = heap_weight s"
  by (simp add: u_wake_up_def)

lemma heap_u_wake_up [simp]: "heap (u_wake_up s) = heap s"
  by (simp add: u_wake_up_def emit_def)

lemma heap_emit [simp]: "heap (emit e s) = heap s"
  by (simp add: emit_def)

lemma u_register_new:
  "u_register (length (heap s)) (s\<lparr>heap := heap s @ [new_future]\<rparr>) =
     ([], s\<lparr>heap := heap s @ [new_future\<lparr>done_callbacks := [CbUnregister]\<rparr>],
            futures := futures s @ [PId (length (heap s))]\<rparr>)"
  by (simp add: u_register_def u_register_future_def add_done_callback_def get_fut_def
      upd_fut_def fut_done_def new_future_def)

lemma run_later_heap:
  "run_later fn args kwds s = (k, s') \<Longrightarrow>
   k = length (heap s) \<and> heap s' = heap s @ [new_future\<lparr>done_callbacks := [CbUnregister]\<rparr>]"
  by (auto simp: run_later_def Future_init_def u_register_new)

lemma run_async_foreign_heap:
  "run_async_foreign fn args kwds s = (k, s') \<Longrightarrow>
   k = length (heap s) \<and> heap s' = heap s @ [new_future\<lparr>done_callbacks := [CbUnregister]\<rparr>]"
  by (auto simp: run_async_foreign_def Future_init_def u_register_new)

lemma chain_new_weight:
  assumes "heap s1 = heap s @ [new_future\<lparr>done_callbacks := [CbUnregister]\<rparr>]"
    and "chain_prim (length (heap s)) next s1 = (calls, s2)"
  shows "calls = [] \<and> heap_weight s2 = heap_weight s + 2"
  using assms
  by (auto simp: chain_prim_def add_done_callback_def get_fut_def upd_fut_def fut_done_def
      new_future_def heap_weight_def fut_weight_def)

lemma call_heap: "call k f args kwds s = (r, s') \<Longrightarrow> heap s' = heap s"
  by (auto simp: call_def u_has_fd_def od_pomp_loop_has_fd_def
      split: callable.splits list.splits pyval.splits)

lemma heap_weight_cong: "heap s' = heap s \<Longrightarrow> heap_weight s' = heap_weight s"
  by (simp add: heap_weight_def)


text \<open>
  A queued task weighs 2: running it may add one \<^verbatim>\<open>chain\<close> callback to the future
  its callable returned.
\<close>

definition queue_weight :: "loop \<Rightarrow> nat" where
  "queue_weight s = 2 * length (async_pomp_task s) + 2 * length (deferred_pomp_task s)"

definition weight :: "loop \<Rightarrow> nat" where
  "weight s = heap_weight s + queue_weight s"

lemma queue_weight_emit [simp]: "queue_weight (emit e s) = queue_weight s"
  by (simp add: queue_weight_def emit_def)

lemma queue_weight_upd_fut [simp]: "queue_weight (upd_fut k g s) = queue_weight s"
  by (simp add: queue_weight_def upd_fut_def)

lemma queue_weight_futures [simp]: "queue_weight (s\<lparr>futures := x\<rparr>) = queue_weight s"
  by (simp add: queue_weight_def)

lemma queue_weight_wake_up [simp]: "queue_weight (u_wake_up s) = queue_weight s"
  by (simp add: u_wake_up_def)

lemma cancel_prim_queue: "cancel_prim k s = (r, fired, s') \<Longrightarrow> queue_weight s' = queue_weight s"
  by (auto simp: cancel_prim_def split: fstate.splits)

lemma set_result_prim_queue:
  "set_result_prim k v s = (r, fired, s') \<Longrightarrow> queue_weight s' = queue_weight s"
  by (auto simp: set_result_prim_def split: if_splits)

lemma set_exception_prim_queue:
  "set_exception_prim k e s = (r, fired, s') \<Longrightarrow> queue_weight s' = queue_weight s"
  by (auto simp: set_exception_prim_def split: if_splits)

lemma set_running_queue:
  "set_running_or_notify_cancel k s = (r, s') \<Longrightarrow> queue_weight s' = queue_weight s"
  by (auto simp: set_running_or_notify_cancel_def split: fstate.splits)

lemma set_from_tail_queue:
  "set_from_tail self source s = Some (r, fired, s') \<Longrightarrow> queue_weight s' = queue_weight s"
  by (auto simp: set_from_tail_def
      dest!: set_running_queue dest: set_result_prim_queue set_exception_prim_queue
      split: prod.splits outcome.splits bool.splits option.splits if_splits)

lemma set_from_prim_queue:
  "set_from_prim self source s = Some (r, fired, s') \<Longrightarrow> queue_weight s' = queue_weight s"
  by (auto simp: set_from_prim_def dest: set_from_tail_queue cancel_prim_queue
      split: prod.splits if_splits)

lemma call_queue: "call k f args kwds s = (r, s') \<Longrightarrow> queue_weight s' = queue_weight s"
  by (auto simp: call_def u_has_fd_def od_pomp_loop_has_fd_def
      split: callable.splits list.splits pyval.splits)

lemma run_later_queue:
  "run_later fn args kwds s = (k, s') \<Longrightarrow> queue_weight s' = queue_weight s + 2"
  by (auto simp: run_later_def Future_init_def u_register_new queue_weight_def)

lemma run_async_foreign_queue:
  "run_async_foreign fn args kwds s = (k, s') \<Longrightarrow> queue_weight s' = queue_weight s + 2"
  by (clarsimp simp: run_async_foreign_def Future_init_def u_register_new Let_def)
     (simp add: queue_weight_def)

lemma chain_prim_queue: "chain_prim a b s = (calls, s') \<Longrightarrow> queue_weight s' = queue_weight s"
  by (auto simp: chain_prim_def add_done_callback_def split: if_splits)

lemma cancel_prim_total:
  "cancel_prim k s = (r, fired, s') \<Longrightarrow>
   calls_weight (fired_callbacks fired k s') + weight s' = weight s"
  using cancel_prim_weight [of k s r fired s'] cancel_prim_queue [of k s r fired s']
  by (simp add: weight_def)

lemma set_result_prim_total:
  "set_result_prim k v s = (r, fired, s') \<Longrightarrow>
   calls_weight (fired_callbacks fired k s') + weight s' = weight s"
  using set_result_prim_weight [of k v s r fired s'] set_result_prim_queue [of k v s r fired s']
  by (simp add: weight_def)

lemma set_exception_prim_total:
  "set_exception_prim k e s = (r, fired, s') \<Longrightarrow>
   calls_weight (fired_callbacks fired k s') + weight s' = weight s"
  using set_exception_prim_weight [of k e s r fired s']
    set_exception_prim_queue [of k e s r fired s']
  by (simp add: weight_def)

lemma set_from_prim_total:
  "set_from_prim self source s = Some (r, fired, s') \<Longrightarrow>
   calls_weight (fired_callbacks fired self s') + weight s' = weight s"
  using set_from_prim_weight [of self source s r fired s']
    set_from_prim_queue [of self source s r fired s']
  by (simp add: weight_def)

lemma call_total: "call k f args kwds s = (r, s') \<Longrightarrow> weight s' = weight s"
  using call_heap [of k f args kwds s r s', THEN heap_weight_cong] call_queue [of k f args kwds s r s']
  by (simp add: weight_def)

lemma weight_emit [simp]: "weight (emit e s) = weight s"
  by (simp add: weight_def)

lemma weight_futures [simp]: "weight (s\<lparr>futures := x\<rparr>) = weight s"
  by (simp add: weight_def)

lemma submit_then_chain_total:
  assumes "heap s1 = heap s @ [new_future\<lparr>done_callbacks := [CbUnregister]\<rparr>]"
    and "queue_weight s1 = queue_weight s + 2"
    and "chain_prim (length (heap s)) next s1 = (calls, s2)"
  shows "calls = [] \<and> weight s2 = weight s + 4"
  using chain_new_weight [OF assms(1) assms(3)] chain_prim_queue [OF assms(3)] assms(2)
  by (simp add: weight_def)

lemma then_body_deferred:
  assumes "run_later fn args kwds s = (temp, s1)" and "chain_prim temp result s1 = (calls, s2)"
  shows "calls = [] \<and> weight s2 = weight s + 4"
  using submit_then_chain_total [of s1 s result calls s2]
    run_later_heap [OF assms(1)] run_later_queue [OF assms(1)] assms(2)
  by simp

lemma then_body_foreign:
  assumes "run_async_foreign fn args kwds s = (temp, s1)"
    and "chain_prim temp result s1 = (calls, s2)"
  shows "calls = [] \<and> weight s2 = weight s + 4"
  using submit_then_chain_total [of s1 s result calls s2]
    run_async_foreign_heap [OF assms(1)] run_async_foreign_queue [OF assms(1)] assms(2)
  by simp

lemma then_body_inline:
  assumes "call k fn a kw s = (r0, s0)" and "set_result_prim result x s0 = (r, fired, s1)"
  shows "calls_weight (fired_callbacks fired result s1) + weight s1 = weight s"
  using set_result_prim_total [OF assms(2)] call_total [OF assms(1)]
  by simp

lemma then_body_weight:
  "then_body cur self result fn d s = Some (r, calls, s1) \<Longrightarrow>
   calls_weight calls + weight s1 \<le> weight s + 4"
  by (auto simp: then_body_def
      dest: then_body_deferred then_body_foreign call_total then_body_inline
      split: option.splits outcome.splits if_splits prod.splits)

lemma cb_step_weight:
  "cb_step cur self cb s = Some (new, s') \<Longrightarrow>
   calls_weight new + weight s' < cb_weight cb + weight s"
proof (cases cb)
  case CbUnregister
  assume "cb_step cur self cb s = Some (new, s')"
  with CbUnregister show ?thesis
    by (auto simp: u_unregister_future_def)
next
  case (CbChain n)
  assume "cb_step cur self cb s = Some (new, s')"
  with CbChain show ?thesis
    by (auto simp: log_callback_exception_def dest: set_from_prim_total
        split: option.splits outcome.splits prod.splits)
next
  case (CbThen res fn d)
  assume "cb_step cur self cb s = Some (new, s')"
  with CbThen show ?thesis
    by (auto simp: log_callback_exception_def then_handler_def fired_callbacks_def
        dest!: then_body_weight dest: cancel_prim_total [unfolded fired_callbacks_def]
        split: option.splits outcome.splits prod.splits if_splits)
qed

function run_callbacks :: "thread \<Rightarrow> (nat \<times> callback) list \<Rightarrow> loop \<Rightarrow> loop option" where
  "run_callbacks cur [] s = Some s"
| "run_callbacks cur ((self, cb) # calls) s =
     (case cb_step cur self cb s of
        None \<Rightarrow> None
      | Some (new, s') \<Rightarrow> run_callbacks cur (new @ calls) s')"
  by pat_completeness auto
termination
proof (relation "measure (\<lambda>(cur, calls, s). calls_weight calls + weight s)")
  show "wf (measure (\<lambda>(cur, calls, s). calls_weight calls + weight s))"
    by simp
next
  fix cur :: thread and self cb calls s x2 new s'
  assume "cb_step cur self cb s = Some x2" and "(new, s') = x2"
  then have "cb_step cur self cb s = Some (new, s')" by simp
  from cb_step_weight [OF this]
  show "((cur, new @ calls, s'), cur, (self, cb) # calls, s)
          \<in> measure (\<lambda>(cur, calls, s). calls_weight calls + weight s)"
    by simp
qed

lemma run_callbacks_weight:
  "run_callbacks cur calls s = Some s' \<Longrightarrow> weight s' \<le> calls_weight calls + weight s"
proof (induction cur calls s rule: run_callbacks.induct)
  case (1 cur s)
  then show ?case by simp
next
  case (2 cur self cb calls s)
  from "2.prems" obtain new s1 where
    step: "cb_step cur self cb s = Some (new, s1)"
    and rest: "run_callbacks cur (new @ calls) s1 = Some s'"
    by (auto split: option.splits)
  from "2.IH" [OF step refl rest] cb_step_weight [OF step]
  show ?case by simp
qed


section \<open>The methods with their callbacks\<close>

text \<open>
  The methods as a caller sees them: the change of state, then \<^verbatim>\<open>_invoke_callbacks\<close>
  in the calling thread \<open>cur\<close>. The result is \<open>None\<close> when a callback waits for ever.
\<close>

definition invoke_callbacks :: "thread \<Rightarrow> bool \<Rightarrow> nat \<Rightarrow> loop \<Rightarrow> loop option" where
  "invoke_callbacks cur fired k s = run_callbacks cur (fired_callbacks fired k s) s"

definition cancel :: "thread \<Rightarrow> nat \<Rightarrow> loop \<Rightarrow> (bool \<times> loop) option" where
  "cancel cur k s =
     (let (r, fired, s1) = cancel_prim k s
      in map_option (Pair r) (invoke_callbacks cur fired k s1))"

definition set_result :: "thread \<Rightarrow> nat \<Rightarrow> pyval \<Rightarrow> loop \<Rightarrow> (unit outcome \<times> loop) option" where
  "set_result cur k v s =
     (let (r, fired, s1) = set_result_prim k v s
      in map_option (Pair r) (invoke_callbacks cur fired k s1))"

definition set_exception :: "thread \<Rightarrow> nat \<Rightarrow> pyexc \<Rightarrow> loop \<Rightarrow> (unit outcome \<times> loop) option" where
  "set_exception cur k e s =
     (let (r, fired, s1) = set_exception_prim k e s
      in map_option (Pair r) (invoke_callbacks cur fired k s1))"

definition set_from :: "thread \<Rightarrow> nat \<Rightarrow> nat \<Rightarrow> loop \<Rightarrow> (unit outcome \<times> loop) option" where
  "set_from cur self source s =
     (case set_from_prim self source s of
        None \<Rightarrow> None
      | Some (r, fired, s1) \<Rightarrow> map_option (Pair r) (invoke_callbacks cur fired self s1))"

definition chain :: "thread \<Rightarrow> nat \<Rightarrow> nat \<Rightarrow> loop \<Rightarrow> loop option" where
  "chain cur self next s = (let (calls, s1) = chain_prim self next s in run_callbacks cur calls s1)"

text \<open>\<^verbatim>\<open>then\<close>, lines 101 to 124; the new future \<open>result\<close> is returned.\<close>

definition Future_then ::
  "thread \<Rightarrow> nat \<Rightarrow> callable \<Rightarrow> bool \<Rightarrow> loop \<Rightarrow> (nat \<times> loop) option" where
  "Future_then cur self fn deferred s =
     (let (result, s1) = Future_init s;
          (calls, s2) = u_register result s1;
          (calls', s3) = add_done_callback self (CbThen result fn deferred) s2
      in map_option (Pair result) (run_callbacks cur (calls @ calls') s3))"

text \<open>
  \<^verbatim>\<open>result_or_cancel(timeout)\<close>: with a timeout the wait ends, with \<^verbatim>\<open>None\<close> it may
  not.
\<close>

definition result_or_cancel ::
  "thread \<Rightarrow> nat \<Rightarrow> nat option \<Rightarrow> loop \<Rightarrow> (pyval outcome \<times> loop) option" where
  "result_or_cancel cur k timeout s =
     (case (case timeout of None \<Rightarrow> fut_result k s | Some t \<Rightarrow> Some (fut_result_timeout k s)) of
        None \<Rightarrow> None
      | Some (Returns v) \<Rightarrow> Some (Returns v, s)
      | Some (Raises e) \<Rightarrow> map_option (\<lambda>(r, s'). (Raises e, s')) (cancel cur k s))"

definition logging_exception :: "string \<Rightarrow> loop \<Rightarrow> loop" where
  "logging_exception msg s = emit (EvLog ''exception'' msg) s"

text \<open>\<^verbatim>\<open>run_async\<close>, lines 195 to 219.\<close>

definition run_async ::
  "thread \<Rightarrow> callable \<Rightarrow> pyval list \<Rightarrow> kwds \<Rightarrow> loop \<Rightarrow> (nat outcome \<times> loop) option" where
  "run_async cur func args kwds s =
     (if cur \<noteq> LoopThread then
        (let (future, s') = run_async_foreign func args kwds s in Some (Returns future, s'))
      else
        (let (future, s1) = Future_init s;
             (calls, s2) = u_register future s1
         in case call future func args kwds s2 of
              (Raises e, s3) \<Rightarrow>
                (if is_Exception e then
                   (case set_exception cur future e
                           (logging_exception ''Unhandled exception in async task function'' s3) of
                      None \<Rightarrow> None
                    | Some (Raises e', s4) \<Rightarrow> Some (Raises e', s4)
                    | Some (Returns u, s4) \<Rightarrow> Some (Returns future, s4))
                 else Some (Raises e, s3))
            | (Returns ret, s3) \<Rightarrow>
                (case ret of
                   PFuture r \<Rightarrow> map_option (Pair (Returns future)) (chain cur r future s3)
                 | _ \<Rightarrow>
                   (case set_result cur future ret s3 of
                      None \<Rightarrow> None
                    | Some (Raises e', s4) \<Rightarrow> Some (Raises e', s4)
                    | Some (Returns u, s4) \<Rightarrow> Some (Returns future, s4)))))"

section \<open>Draining a task queue\<close>

datatype queue = Immediate | Deferred

fun task_list :: "queue \<Rightarrow> loop \<Rightarrow> task list" where
  "task_list Immediate s = async_pomp_task s"
| "task_list Deferred s = deferred_pomp_task s"

fun set_task_list :: "queue \<Rightarrow> task list \<Rightarrow> loop \<Rightarrow> loop" where
  "set_task_list Immediate l s = s\<lparr>async_pomp_task := l\<rparr>"
| "set_task_list Deferred l s = s\<lparr>deferred_pomp_task := l\<rparr>"

text \<open>
  The body of the loop of \<^verbatim>\<open>_run_task_list\<close> for the entry it has popped (lines 243 to
  255), run by the loop thread. \<^verbatim>\<open>_unregister_future\<close> gets the future itself, not its
  id, so it finds nothing in the list of ids. An exception that leaves the body leaves
  \<^verbatim>\<open>_run_task_list\<close>.
\<close>

definition run_task :: "task \<Rightarrow> loop \<Rightarrow> (unit outcome \<times> loop) option" where
  "run_task t s =
     (case t of (future, f, args, kwds) \<Rightarrow>
        (case call future f args kwds s of
           (Raises e, s1) \<Rightarrow>
             (if is_Exception e then
                (let s2 = logging_exception ''Unhandled exception in async task function'' s1;
                     (u, s3) = u_unregister_future (PFuture future) True s2
                 in set_exception LoopThread future e s3)
              else Some (Raises e, s1))
         | (Returns ret, s1) \<Rightarrow>
             (case ret of
                PFuture r \<Rightarrow> map_option (Pair (Returns ())) (chain LoopThread r future s1)
              | _ \<Rightarrow> set_result LoopThread future ret s1)))"

lemma invoke_callbacks_weight:
  "invoke_callbacks cur fired k s = Some s' \<Longrightarrow>
   weight s' \<le> calls_weight (fired_callbacks fired k s) + weight s"
  unfolding invoke_callbacks_def by (rule run_callbacks_weight)

lemma set_result_weight:
  "set_result cur k v s = Some (r, s') \<Longrightarrow> weight s' \<le> weight s"
  by (auto simp: set_result_def split: prod.splits
      dest!: invoke_callbacks_weight set_result_prim_total)

lemma set_exception_weight:
  "set_exception cur k e s = Some (r, s') \<Longrightarrow> weight s' \<le> weight s"
  by (auto simp: set_exception_def split: prod.splits
      dest!: invoke_callbacks_weight set_exception_prim_total)

lemma chain_prim_total:
  "chain_prim a b s = (calls, s') \<Longrightarrow> calls_weight calls + weight s' \<le> weight s + 1"
proof (cases "a < length (heap s)")
  case True
  assume "chain_prim a b s = (calls, s')"
  then show ?thesis
    using heap_weight_upd [OF True, of "\<lambda>f. f\<lparr>done_callbacks := done_callbacks f @ [CbChain b]\<rparr>"]
    by (auto simp: chain_prim_def add_done_callback_def weight_def fut_weight_def fut_done_def
        split: if_splits)
next
  case False
  assume "chain_prim a b s = (calls, s')"
  with False show ?thesis
    by (auto simp: chain_prim_def add_done_callback_def upd_fut_beyond split: if_splits)
qed

lemma chain_weight: "chain cur a b s = Some s' \<Longrightarrow> weight s' \<le> weight s + 1"
  by (auto simp: chain_def split: prod.splits dest!: run_callbacks_weight chain_prim_total)

lemma unregister_weight [simp]: "weight (snd (u_unregister_future f b s)) = weight s"
  by (simp add: u_unregister_future_def)

lemma run_task_weight:
  "run_task t s = Some (r, s') \<Longrightarrow> weight s' \<le> weight s + 1"
proof -
  assume run: "run_task t s = Some (r, s')"
  obtain future f args kwds where t: "t = (future, f, args, kwds)" by (cases t)
  obtain r0 s1 where c: "call future f args kwds s = (r0, s1)" by force
  have w1: "weight s1 = weight s" by (rule call_total [OF c])
  show ?thesis
  proof (cases r0)
    case (Raises e)
    show ?thesis
    proof (cases "is_Exception e")
      case True
      with run t c Raises have
        "set_exception LoopThread future e
           (snd (u_unregister_future (PFuture future) True
              (logging_exception ''Unhandled exception in async task function'' s1))) = Some (r, s')"
        by (simp add: run_task_def Let_def split_beta)
      from set_exception_weight [OF this] w1 show ?thesis
        by (simp add: logging_exception_def)
    next
      case False
      with run t c Raises w1 show ?thesis by (simp add: run_task_def)
    qed
  next
    case (Returns ret)
    show ?thesis
    proof (cases "\<exists>k. ret = PFuture k")
      case True
      then obtain k where "ret = PFuture k" by blast
      with run t c Returns have "chain LoopThread k future s1 = Some s'"
        by (auto simp: run_task_def)
      from chain_weight [OF this] w1 show ?thesis by simp
    next
      case False
      with run t c Returns have "set_result LoopThread future ret s1 = Some (r, s')"
        by (cases ret) (auto simp: run_task_def)
      from set_result_weight [OF this] w1 show ?thesis by simp
    qed
  qed
qed

lemma weight_pop:
  "task_list q s = t # rest \<Longrightarrow> weight (set_task_list q rest s) + 2 = weight s"
  by (cases q) (auto simp: weight_def queue_weight_def heap_weight_def)

function u_run_task_list :: "queue \<Rightarrow> loop \<Rightarrow> (unit outcome \<times> loop) option" where
  "u_run_task_list q s =
     (case task_list q s of
        [] \<Rightarrow> Some (Returns (), s)
      | t # rest \<Rightarrow>
          (case run_task t (set_task_list q rest s) of
             None \<Rightarrow> None
           | Some (Raises e, s') \<Rightarrow> Some (Raises e, s')
           | Some (Returns u, s') \<Rightarrow> u_run_task_list q s'))"
  by pat_completeness auto
termination
proof (relation "measure (\<lambda>(q, s). weight s)")
  show "wf (measure (\<lambda>(q, s). weight s))" by simp
next
  fix q s t rest x2 r s' u
  assume pop: "task_list q s = t # rest"
    and run: "run_task t (set_task_list q rest s) = Some x2"
    and x2: "(r, s') = x2"
  from run x2 have "run_task t (set_task_list q rest s) = Some (r, s')" by simp
  from run_task_weight [OF this] weight_pop [OF pop]
  show "((q, s'), q, s) \<in> measure (\<lambda>(q, s). weight s)" by simp
qed

declare u_run_task_list.simps [simp del]

end
